theory Spec2Isabelle
  imports Main
begin

section \<open>JavaScript values used by the 3D helpers\<close>

text \<open>
  An optional property of a JavaScript object has three states: the key is absent, the key
  is present with the value \<open>undefined\<close>, or the key holds a value. Reading the property
  gives \<open>undefined\<close> in the first two cases; object spread copies the key in the last two.
  Strings are lists of ASCII code units.
\<close>

datatype 'a js_prop = Absent | Undefined | Value 'a

text \<open>Destructuring with a default, \<open>const { x = d } = options\<close>.\<close>

fun with_default :: "'a \<Rightarrow> 'a js_prop \<Rightarrow> 'a" where
  "with_default d (Value v) = v"
| "with_default d Absent = d"
| "with_default d Undefined = d"

text \<open>Truthiness of an optional string: \<open>undefined\<close> and the empty string are falsy.\<close>

fun truthy :: "string js_prop \<Rightarrow> bool" where
  "truthy (Value s) = (s \<noteq> [])"
| "truthy Absent = False"
| "truthy Undefined = False"


text \<open>Template-literal rendering \<open>${x}\<close> of an optional string.\<close>

fun render :: "string js_prop \<Rightarrow> string" where
  "render (Value s) = s"
| "render Absent = ''undefined''"
| "render Undefined = ''undefined''"





text \<open>
  \<open>s.replace(/\.[^.]+$/, r)\<close>: the pattern matches from the last dot to the end of the
  string when at least one character follows that dot; without a match the string is
  returned as it is. The replacements used by the helpers contain no \<open>$\<close>.
\<close>

definition replace_ext :: "string \<Rightarrow> string \<Rightarrow> string" where
  "replace_ext s r =
     (let after = takeWhile (\<lambda>c. c \<noteq> CHR ''.'') (rev s)
      in if length after < length s \<and> after \<noteq> []
         then take (length s - length after - 1) s @ r
         else s)"




section \<open>Models, variants and formats (model3dUtils.ts)\<close>

text \<open>
  \<open>Model3DModel\<close>, \<open>Model3DVariant\<close> and \<open>Model3DFormat\<close> are string enums. The
  helpers check their values at run time, since callers pass unchecked strings, so an
  enum value is its string.
\<close>

definition TRELLIS :: string where "TRELLIS = ''trellis''"
definition HUNYUAN3D :: string where "HUNYUAN3D = ''hunyuan3d''"
definition HUNYUAN_WORLD :: string where "HUNYUAN_WORLD = ''hunyuan-world''"
definition SEED3D :: string where "SEED3D = ''seed3d''"
definition MESHY :: string where "MESHY = ''meshy''"

definition SINGLE :: string where "SINGLE = ''single''"
definition MULTI :: string where "MULTI = ''multi''"
definition SINGLE_TURBO :: string where "SINGLE_TURBO = ''single-turbo''"
definition MULTI_TURBO :: string where "MULTI_TURBO = ''multi-turbo''"

definition GLB :: string where "GLB = ''glb''"
definition GLTF :: string where "GLTF = ''gltf''"

lemmas enum_defs =
  TRELLIS_def HUNYUAN3D_def HUNYUAN_WORLD_def SEED3D_def MESHY_def
  SINGLE_def MULTI_def SINGLE_TURBO_def MULTI_TURBO_def GLB_def GLTF_def

text \<open>The members of the enum \<open>Model3DModel\<close>.\<close>

definition Model3DModel :: "string list" where
  "Model3DModel = [TRELLIS, HUNYUAN3D, HUNYUAN_WORLD, SEED3D, MESHY]"


text \<open>\<open>AVAILABLE_VARIANTS\<close>: the object keyed by model; other keys read \<open>undefined\<close>.\<close>

definition AVAILABLE_VARIANTS :: "string \<Rightarrow> string list option" where
  "AVAILABLE_VARIANTS m =
     (if m = TRELLIS then Some [SINGLE, MULTI]
      else if m = HUNYUAN3D then Some [SINGLE, MULTI, SINGLE_TURBO, MULTI_TURBO]
      else if m = HUNYUAN_WORLD then Some [SINGLE]
      else if m = SEED3D then Some [SINGLE]
      else if m = MESHY then Some [SINGLE, MULTI]
      else None)"

section \<open>Variant selection (model3dHelpers.ts, selectModelVariant)\<close>

definition selectModelVariant :: "string \<Rightarrow> int \<Rightarrow> bool \<Rightarrow> string" where
  "selectModelVariant m inputImageCount preferTurbo =
     (if m = TRELLIS \<or> m = MESHY then
        (if inputImageCount \<le> 1 then SINGLE else MULTI)
      else if m = HUNYUAN_WORLD \<or> m = SEED3D then SINGLE
      else if preferTurbo then
        (if inputImageCount \<le> 1 then SINGLE_TURBO else MULTI_TURBO)
      else
        (if inputImageCount \<le> 1 then SINGLE else MULTI))"

section \<open>Generation options\<close>

text \<open>The reference views, a union of five string literals.\<close>

datatype view = Front | Back | Top | Left | Right

fun view_str :: "view \<Rightarrow> string" where
  "view_str Front = ''front''"
| "view_str Back = ''back''"
| "view_str Top = ''top''"
| "view_str Left = ''left''"
| "view_str Right = ''right''"

text \<open>\<open>Model3DGenerationOptionsExtended\<close>; \<open>outputPath\<close> and \<open>model\<close> are required.\<close>

record options =
  prompt :: "string js_prop"
  inputImagePaths :: "string list js_prop"
  outputPath :: string
  model :: string
  variant :: "string js_prop"
  format :: "string js_prop"
  quality :: "string js_prop"
  textured_mesh :: "bool js_prop"
  autoGenerateReferences :: "bool js_prop"
  referenceModel :: "string js_prop"
  referenceViews :: "view list js_prop"
  cleanupReferences :: "bool js_prop"

section \<open>Strict validation (validate3DModelOptions)\<close>


section \<open>Defaults and merging (getDefault3DOptions, merge3DWithDefaults)\<close>

text \<open>The object returned by \<open>getDefault3DOptions\<close> has exactly these seven keys.\<close>

record default_options =
  d_format :: string
  d_autoGenerateReferences :: bool
  d_referenceModel :: string
  d_referenceViews :: "view list"
  d_cleanupReferences :: bool
  d_model :: string
  d_variant :: string

definition baseDefaults :: "string \<Rightarrow> string \<Rightarrow> default_options" where
  "baseDefaults m v =
     \<lparr>d_format = GLB, d_autoGenerateReferences = True, d_referenceModel = ''gemini'',
      d_referenceViews = [Front, Back, Top], d_cleanupReferences = True,
      d_model = m, d_variant = v\<rparr>"

definition getDefault3DOptions :: "string \<Rightarrow> string + default_options" where
  "getDefault3DOptions m =
     (if m = TRELLIS then Inr (baseDefaults TRELLIS MULTI)
      else if m = HUNYUAN3D then Inr (baseDefaults HUNYUAN3D MULTI)
      else if m = HUNYUAN_WORLD then Inr (baseDefaults HUNYUAN_WORLD SINGLE)
      else if m = SEED3D then Inr (baseDefaults SEED3D SINGLE)
      else if m = MESHY then Inr (baseDefaults MESHY SINGLE)
      else Inl (''No default options available for model: '' @ m))"

text \<open>
  One key of the spread \<open>{ ...defaults, ...options }\<close>: the key of \<open>options\<close> wins
  whenever it is present, also when it holds \<open>undefined\<close>.
\<close>

fun spread :: "'a \<Rightarrow> 'a js_prop \<Rightarrow> 'a js_prop" where
  "spread d Absent = Value d"
| "spread d Undefined = Undefined"
| "spread d (Value v) = Value v"

text \<open>
  \<open>options\<close> always holds \<open>model\<close> and \<open>outputPath\<close>, so the default \<open>model\<close> is
  overwritten by the caller's; the keys the defaults lack are copied from \<open>options\<close>.
\<close>

definition merge3DWithDefaults :: "options \<Rightarrow> string + options" where
  "merge3DWithDefaults opts =
     (case getDefault3DOptions (model opts) of
        Inl e \<Rightarrow> Inl e
      | Inr defaults \<Rightarrow>
          Inr (opts\<lparr>
            format := spread (d_format defaults) (format opts),
            autoGenerateReferences :=
              spread (d_autoGenerateReferences defaults) (autoGenerateReferences opts),
            referenceModel := spread (d_referenceModel defaults) (referenceModel opts),
            referenceViews := spread (d_referenceViews defaults) (referenceViews opts),
            cleanupReferences := spread (d_cleanupReferences defaults) (cleanupReferences opts),
            model := model opts,
            variant := spread (d_variant defaults) (variant opts)\<rparr>))"

section \<open>Polling a Meshy task (model3dUtils.ts, pollMeshyTaskStatus)\<close>

text \<open>
  \<open>makeHTTPRequest\<close> lives outside these files: it is a parameter, a function of the
  attempt number and the request, that either throws or resolves to the parsed response.
\<close>

record http_request =
  req_url :: string
  req_method :: string
  req_authorization :: string

record api_error =
  err_message :: "string js_prop"
  err_json :: string

record meshy_response =
  resp_error :: "api_error option"
  resp_status :: "string js_prop"
  resp_task_error_message :: "string js_prop"
  resp_payload :: string

text \<open>What the loop has done so far: the requests sent and the milliseconds slept.\<close>

record poll_state =
  requested :: "http_request list"
  slept :: nat

function pollLoop ::
  "(nat \<Rightarrow> http_request \<Rightarrow> string + meshy_response) \<Rightarrow> http_request \<Rightarrow> nat \<Rightarrow> nat \<Rightarrow>
   nat \<Rightarrow> poll_state \<Rightarrow> poll_state \<times> (string + meshy_response)" where
  "pollLoop makeHTTPRequest req maxAttempts pollInterval attempt st =
     (if attempt < maxAttempts then
        (let st1 = st\<lparr>requested := requested st @ [req]\<rparr> in
         case makeHTTPRequest attempt req of
           Inl thrown \<Rightarrow> (st1, Inl thrown)
         | Inr response \<Rightarrow>
             (case resp_error response of
                Some err \<Rightarrow>
                  (st1, Inl (''Meshy API error: '' @
                    (if truthy (err_message err) then render (err_message err) else err_json err)))
              | None \<Rightarrow>
                  if resp_status response = Value ''SUCCEEDED'' then (st1, Inr response)
                  else if resp_status response = Value ''FAILED'' \<or>
                          resp_status response = Value ''EXPIRED'' then
                    (st1, Inl (''Meshy task '' @ render (resp_status response) @ '': '' @
                      (if truthy (resp_task_error_message response)
                       then render (resp_task_error_message response) else ''Unknown error'')))
                  else
                    pollLoop makeHTTPRequest req maxAttempts pollInterval (Suc attempt)
                      (st1\<lparr>slept := slept st1 + pollInterval\<rparr>)))
      else (st, Inl ''Meshy task timed out after maximum polling attempts''))"
  by pat_completeness auto
termination
  by (relation "measure (\<lambda>(h, r, maxAttempts, p, attempt, st). maxAttempts - attempt)") auto

declare pollLoop.simps [simp del]

definition meshy_status_request :: "string \<Rightarrow> string \<Rightarrow> string js_prop \<Rightarrow> http_request" where
  "meshy_status_request taskId apiKey basePath =
     \<lparr>req_url = ''https://api.meshy.ai/openapi/v1/'' @ with_default ''image-to-3d'' basePath @
        ''/'' @ taskId,
      req_method = ''GET'', req_authorization = ''Bearer '' @ apiKey\<rparr>"

definition pollMeshyTaskStatus ::
  "(nat \<Rightarrow> http_request \<Rightarrow> string + meshy_response) \<Rightarrow> string \<Rightarrow> string \<Rightarrow> string js_prop \<Rightarrow>
   nat js_prop \<Rightarrow> nat js_prop \<Rightarrow> poll_state \<times> (string + meshy_response)" where
  "pollMeshyTaskStatus makeHTTPRequest taskId apiKey basePath maxAttempts pollInterval =
     pollLoop makeHTTPRequest (meshy_status_request taskId apiKey basePath)
       (with_default 120 maxAttempts) (with_default 5000 pollInterval) 0
       \<lparr>requested = [], slept = 0\<rparr>"

text \<open>A response that keeps the loop going: no error and no terminal status.\<close>

definition still_processing :: "string + meshy_response \<Rightarrow> bool" where
  "still_processing r =
     (case r of
        Inl thrown \<Rightarrow> False
      | Inr response \<Rightarrow>
          resp_error response = None \<and> resp_status response \<noteq> Value ''SUCCEEDED'' \<and>
          resp_status response \<noteq> Value ''FAILED'' \<and> resp_status response \<noteq> Value ''EXPIRED'')"

section \<open>The world of a generation job\<close>

text \<open>
  The reference-image backend \<open>generateImage\<close> (imageHelpers.ts) takes one options
  object. \<open>size\<close> and \<open>image_size\<close> are always passed, possibly as \<open>undefined\<close>;
  \<open>inputImagePaths\<close> is passed for every view but the first.
\<close>

record image_request =
  img_provider :: string
  img_prompt :: string
  img_outputPath :: string
  img_inputImagePaths :: "string list js_prop"
  img_size :: "string js_prop"
  img_image_size :: "string js_prop"

text \<open>
  \<open>Model3DGenerationResult\<close>. The fields \<open>generation_time\<close>, \<open>model_info\<close> and
  \<open>parameters\<close>, which the helpers never read or write, are left out.
\<close>

record Model3DGenerationResult =
  res_provider :: string
  res_model :: string
  res_variant :: string
  savedPaths :: "string list"
  prompt_used :: "string js_prop"
  input_images :: "string list"
  auto_generated_references :: "string list js_prop"
  reference_model_used :: "string js_prop"
  reference_views_generated :: "view list js_prop"

text \<open>
  The ten 3D backends of model3dUtils.ts take an argument object with one image path or
  with a list of them. \<open>finalInputPaths[0]\<close> is \<open>undefined\<close> on an empty list.
\<close>

record single_args =
  a_prompt :: "string js_prop"
  a_imagePath :: "string js_prop"
  a_outputPath :: string
  a_format :: string

record multi_args =
  m_prompt :: "string js_prop"
  m_imagePaths :: "string list"
  m_outputPath :: string
  m_format :: string

datatype backend_call =
    trellisGenerate3DSingle single_args
  | trellisGenerate3DMulti multi_args
  | hunyuan3DGenerateSingle single_args
  | hunyuan3DGenerateMulti multi_args
  | hunyuan3DGenerateSingleTurbo single_args
  | hunyuan3DGenerateMultiTurbo multi_args
  | hunyuanWorldGenerate3D single_args
  | seed3DGenerate single_args
  | meshyGenerateSingle single_args
  | meshyGenerateMulti multi_args

text \<open>\<open>Model3DGenerationStatus\<close>, the JSON document of the status file.\<close>

datatype job_status = Pending | Processing | Completed | Failed

record Model3DGenerationStatus =
  status_id :: string
  status :: job_status
  progress :: nat
  message :: string
  startTime :: string
  endTime :: "string option"
  result :: "Model3DGenerationResult option"
  error :: "string option"
  logs :: "string list"

text \<open>
  \<open>Partial<Model3DGenerationStatus>\<close>, with the keys the callers pass; \<open>None\<close> is a
  key that is not passed.
\<close>

record status_patch =
  p_status :: "job_status option"
  p_progress :: "nat option"
  p_message :: "string option"
  p_endTime :: "string option"
  p_result :: "Model3DGenerationResult option"
  p_error :: "string option"

text \<open>
  The collaborators that live outside these files, as parameters: the image backend, by
  call number and request, throws or resolves to the \<open>savedPaths\<close> of the parsed JSON; a
  3D backend throws or resolves to its result; \<open>unlinkSync\<close> may fail on an existing
  file with the given error text; \<open>now\<close> is \<open>new Date().toISOString()\<close>;
  \<open>basename\<close> is \<open>path.basename\<close>.
\<close>

record env =
  generateImage :: "nat \<Rightarrow> image_request \<Rightarrow> string + string list js_prop"
  backend :: "backend_call \<Rightarrow> string + Model3DGenerationResult"
  unlink_fault :: "string \<Rightarrow> string option"
  now :: string
  basename :: "string \<Rightarrow> string \<Rightarrow> string"

text \<open>
  The state a job reads and writes: the status files by path, holding a well-formed
  document when present, and the image files on disk, which are other paths than the
  status files. Every document written to a status file is also appended to \<open>writes\<close>,
  and every call of a backend to \<open>imageCalls\<close> or \<open>backendCalls\<close>, so that a property
  can speak about the intermediate states of a job. Reads and writes of the status file
  succeed.
\<close>

record world =
  statusFiles :: "string \<rightharpoonup> Model3DGenerationStatus"
  writes :: "(string \<times> Model3DGenerationStatus) list"
  files :: "string set"
  imageCalls :: "image_request list"
  backendCalls :: "backend_call list"

section \<open>Reference images (generateReferenceImages)\<close>

text \<open>
  \<open>Array.prototype.sort\<close> is stable. It is modelled as insertion sort: each element,
  in input order, goes before the first element it compares smaller than.
\<close>

primrec insert_sorted :: "('a \<Rightarrow> 'a \<Rightarrow> int) \<Rightarrow> 'a \<Rightarrow> 'a list \<Rightarrow> 'a list" where
  "insert_sorted cmp x [] = [x]"
| "insert_sorted cmp x (y # ys) =
     (if cmp x y < 0 then x # y # ys else y # insert_sorted cmp x ys)"

definition js_sort :: "('a \<Rightarrow> 'a \<Rightarrow> int) \<Rightarrow> 'a list \<Rightarrow> 'a list" where
  "js_sort cmp xs = foldl (\<lambda>sorted x. insert_sorted cmp x sorted) [] xs"

text \<open>The comparator that brings \<open>front\<close> first.\<close>

definition view_compare :: "view \<Rightarrow> view \<Rightarrow> int" where
  "view_compare a b = (if a = Front then - 1 else if b = Front then 1 else 0)"

definition sortedViews :: "view list \<Rightarrow> view list" where
  "sortedViews views = js_sort view_compare views"

text \<open>The \<open>switch (view)\<close> that ends both prompts.\<close>

fun view_details :: "view \<Rightarrow> string" where
  "view_details Front =
     '', front-facing view showing main features and proportions, sharp edges, fine details''"
| "view_details Back =
     '', rear view showing back details and construction, sharp edges, fine details''"
| "view_details Top =
     '', overhead view showing top layout and proportions, sharp edges, fine details''"
| "view_details Left =
     '', left side profile showing side details and proportions, sharp edges, fine details''"
| "view_details Right =
     '', right side profile showing opposite side details, sharp edges, fine details''"

definition first_view_prompt :: "string \<Rightarrow> view \<Rightarrow> string" where
  "first_view_prompt promptText view =
     promptText @ '', '' @ view_str view @ '' view, '' @
     ''sharp technical reference image, clean white background, '' @
     ''professional 3D modeling reference, consistent lighting, '' @
     ''highly detailed, crisp details, sharp focus, '' @
     ''shot on Sony A7R IV with 85mm f/1.4 lens, '' @
     ''professional product photography, suitable for 3D reconstruction'' @
     view_details view"

definition next_view_prompt :: "view \<Rightarrow> string" where
  "next_view_prompt view =
     ''Create a '' @ view_str view @ '' view of the same object, maintaining exact consistency '' @
     ''with the provided image(s). Sharp technical reference image, clean white background, '' @
     ''professional 3D modeling reference, consistent lighting, '' @
     ''highly detailed, crisp details, sharp focus, '' @
     ''shot on Sony A7R IV with 85mm f/1.4 lens, '' @
     ''professional product photography, suitable for 3D reconstruction'' @
     view_details view"

text \<open>
  The options object of the \<open>generateImage\<close> call in iteration \<open>i\<close>: the first view is
  generated from the text prompt, a later one from all the images produced so far.
\<close>

definition view_request ::
  "string \<Rightarrow> string \<Rightarrow> string \<Rightarrow> nat \<Rightarrow> view \<Rightarrow> string list \<Rightarrow> image_request" where
  "view_request promptText outputBasePath provider i view referencePaths =
     (let outputPath = replace_ext outputBasePath (''_ref_'' @ view_str view @ ''.png'') in
      if i = 0 then
        \<lparr>img_provider = provider, img_prompt = first_view_prompt promptText view,
         img_outputPath = outputPath, img_inputImagePaths = Absent,
         img_size = (if provider = ''openai'' then Value ''1024x1024'' else Undefined),
         img_image_size = (if provider = ''falai'' then Value ''square_hd'' else Undefined)\<rparr>
      else
        \<lparr>img_provider = provider, img_prompt = next_view_prompt view,
         img_outputPath = outputPath, img_inputImagePaths = Value referencePaths,
         img_size = (if provider = ''openai'' then Value ''1024x1024'' else Undefined),
         img_image_size = (if provider = ''falai'' then Value ''square_hd'' else Undefined)\<rparr>)"

text \<open>
  What one call adds to \<open>referencePaths\<close>: the \<open>savedPaths\<close> of a call that resolved to
  a non-empty list, nothing when the call or the parsing threw (the \<open>catch\<close> only warns).
\<close>

fun pushed_paths :: "string + string list js_prop \<Rightarrow> string list" where
  "pushed_paths (Inl thrown) = []"
| "pushed_paths (Inr (Value paths)) = (if length paths > 0 then paths else [])"
| "pushed_paths (Inr Absent) = []"
| "pushed_paths (Inr Undefined) = []"

text \<open>
  The loop over \<open>sortedViews\<close> from index \<open>i\<close>. A resolved call has saved its images, so
  its paths are on disk afterwards.
\<close>

fun referenceLoop ::
  "env \<Rightarrow> string \<Rightarrow> string \<Rightarrow> string \<Rightarrow> nat \<Rightarrow> view list \<Rightarrow> string list \<Rightarrow> world \<Rightarrow>
   string list \<times> world" where
  "referenceLoop e promptText outputBasePath provider i [] referencePaths w = (referencePaths, w)"
| "referenceLoop e promptText outputBasePath provider i (view # rest) referencePaths w =
     (let request = view_request promptText outputBasePath provider i view referencePaths;
          outcome = generateImage e i request;
          w1 = w\<lparr>files := files w \<union> set (pushed_paths outcome),
                 imageCalls := imageCalls w @ [request]\<rparr>
      in referenceLoop e promptText outputBasePath provider (Suc i) rest
           (referencePaths @ pushed_paths outcome) w1)"

definition generateReferenceImages ::
  "env \<Rightarrow> string \<Rightarrow> string \<Rightarrow> view list js_prop \<Rightarrow> string js_prop \<Rightarrow> world \<Rightarrow>
   string list \<times> world" where
  "generateReferenceImages e promptText outputBasePath views provider w =
     referenceLoop e promptText outputBasePath (with_default ''gemini'' provider) 0
       (sortedViews (with_default [Front, Back, Top] views)) [] w"

text \<open>The requests the loop sends, and what they add, as functions of their own.\<close>

fun loop_calls ::
  "env \<Rightarrow> string \<Rightarrow> string \<Rightarrow> string \<Rightarrow> nat \<Rightarrow> view list \<Rightarrow> string list \<Rightarrow> image_request list" where
  "loop_calls e promptText outputBasePath provider i [] referencePaths = []"
| "loop_calls e promptText outputBasePath provider i (view # rest) referencePaths =
     (let request = view_request promptText outputBasePath provider i view referencePaths
      in request # loop_calls e promptText outputBasePath provider (Suc i) rest
           (referencePaths @ pushed_paths (generateImage e i request)))"

fun paths_of_calls :: "env \<Rightarrow> nat \<Rightarrow> image_request list \<Rightarrow> string list" where
  "paths_of_calls e i [] = []"
| "paths_of_calls e i (request # requests) =
     pushed_paths (generateImage e i request) @ paths_of_calls e (Suc i) requests"

section \<open>The status file (updateStatusFile, addLogToStatus)\<close>

text \<open>\<open>Object.assign(currentStatus, status)\<close>: every key passed overwrites the document's.\<close>

definition assign_patch :: "status_patch \<Rightarrow> Model3DGenerationStatus \<Rightarrow> Model3DGenerationStatus" where
  "assign_patch patch currentStatus =
     currentStatus\<lparr>
       status := (case p_status patch of Some v \<Rightarrow> v | None \<Rightarrow> status currentStatus),
       progress := (case p_progress patch of Some v \<Rightarrow> v | None \<Rightarrow> progress currentStatus),
       message := (case p_message patch of Some v \<Rightarrow> v | None \<Rightarrow> message currentStatus),
       endTime := (case p_endTime patch of Some v \<Rightarrow> Some v | None \<Rightarrow> endTime currentStatus),
       result := (case p_result patch of Some v \<Rightarrow> Some v | None \<Rightarrow> result currentStatus),
       error := (case p_error patch of Some v \<Rightarrow> Some v | None \<Rightarrow> error currentStatus)\<rparr>"

definition updateStatusFile :: "env \<Rightarrow> string \<Rightarrow> status_patch \<Rightarrow> world \<Rightarrow> world" where
  "updateStatusFile e statusPath patch w =
     (let currentStatus =
            (case statusFiles w statusPath of
               Some document \<Rightarrow> document
             | None \<Rightarrow>
                 \<lparr>status_id = basename e statusPath ''.json'', status = Pending, progress = 0,
                  message = ''Initializing...'', startTime = now e, endTime = None,
                  result = None, error = None, logs = []\<rparr>);
          updated = assign_patch patch currentStatus
      in w\<lparr>statusFiles := (statusFiles w)(statusPath \<mapsto> updated),
            writes := writes w @ [(statusPath, updated)]\<rparr>)"

definition addLogToStatus :: "env \<Rightarrow> string \<Rightarrow> string \<Rightarrow> world \<Rightarrow> world" where
  "addLogToStatus e statusPath text w =
     (let currentStatus =
            (case statusFiles w statusPath of
               Some document \<Rightarrow> document
             | None \<Rightarrow>
                 \<lparr>status_id = basename e statusPath ''.json'', status = Processing, progress = 0,
                  message = ''Starting...'', startTime = now e, endTime = None,
                  result = None, error = None, logs = []\<rparr>);
          updated = currentStatus\<lparr>logs := logs currentStatus @ [''['' @ now e @ ''] '' @ text]\<rparr>
      in w\<lparr>statusFiles := (statusFiles w)(statusPath \<mapsto> updated),
            writes := writes w @ [(statusPath, updated)]\<rparr>)"

text \<open>The object literals passed to \<open>updateStatusFile\<close>, by the keys they hold.\<close>

definition status_progress_message :: "job_status \<Rightarrow> nat \<Rightarrow> string \<Rightarrow> status_patch" where
  "status_progress_message s n text =
     \<lparr>p_status = Some s, p_progress = Some n, p_message = Some text, p_endTime = None,
      p_result = None, p_error = None\<rparr>"




section \<open>The asynchronous job (generate3DModelAsync)\<close>












text \<open>
  The job: the initial document, then the background task, which is started in every
  case. The caller gets the status path back.
\<close>

definition initialWrite :: "env \<Rightarrow> string \<Rightarrow> world \<Rightarrow> world" where
  "initialWrite e statusPath w =
     updateStatusFile e statusPath
       (status_progress_message Pending 0 ''Initializing 3D model generation...'') w"



section \<open>Invariants of a running job\<close>




section \<open>Example requests\<close>




definition request_full :: options where
  "request_full =
     \<lparr>prompt = Value ''test model'', inputImagePaths = Absent, outputPath = ''model.glb'',
      model = MESHY, variant = Value MULTI, format = Value GLTF, quality = Absent,
      textured_mesh = Absent, autoGenerateReferences = Value False,
      referenceModel = Value ''openai'', referenceViews = Value [Front, Left],
      cleanupReferences = Value False\<rparr>"



section \<open>Example servers\<close>

definition response_in_progress :: meshy_response where
  "response_in_progress =
     \<lparr>resp_error = None, resp_status = Value ''IN_PROGRESS'',
      resp_task_error_message = Absent, resp_payload = []\<rparr>"

definition response_succeeded :: meshy_response where
  "response_succeeded =
     \<lparr>resp_error = None, resp_status = Value ''SUCCEEDED'',
      resp_task_error_message = Absent, resp_payload = ''model.glb''\<rparr>"

definition server_never_done :: "nat \<Rightarrow> http_request \<Rightarrow> string + meshy_response" where
  "server_never_done attempt req = Inr response_in_progress"

definition server_done_at_third :: "nat \<Rightarrow> http_request \<Rightarrow> string + meshy_response" where
  "server_done_at_third attempt req =
     (if attempt < 2 then Inr response_in_progress else Inr response_succeeded)"

section \<open>Example worlds and image backends\<close>

definition world0 :: world where
  "world0 = \<lparr>statusFiles = Map.empty, writes = [], files = {}, imageCalls = [], backendCalls = []\<rparr>"

definition env_second_view_fails :: env where
  "env_second_view_fails =
     \<lparr>generateImage = (\<lambda>i request.
        if i = 0 then Inr (Value [''test_front.png''])
        else if i = 1 then Inl ''Generation failed''
        else Inr (Value [''test_top.png''])),
      backend = (\<lambda>call. Inl ''no backend''),
      unlink_fault = (\<lambda>path. None),
      now = ''2025-01-08T13:20:00.000Z'',
      basename = (\<lambda>path ext. path)\<rparr>"

definition env_all_views_saved :: env where
  "env_all_views_saved =
     \<lparr>generateImage = (\<lambda>i request. Inr (Value [img_outputPath request])),
      backend = (\<lambda>call. Inl ''no backend''),
      unlink_fault = (\<lambda>path. None),
      now = ''2025-01-08T13:20:00.000Z'',
      basename = (\<lambda>path ext. path)\<rparr>"

section \<open>Example jobs\<close>






section \<open>Properties of variant selection\<close>

text \<open>
  C5. For every model of the enum, every input image count and either value of the
  prefer-turbo flag, \<open>selectModelVariant\<close> returns a variant listed for that model in
  \<open>AVAILABLE_VARIANTS\<close>.
\<close>

theorem selectModelVariant_available:
  assumes "m \<in> set Model3DModel"
  shows "\<exists>vs. AVAILABLE_VARIANTS m = Some vs \<and> selectModelVariant m n preferTurbo \<in> set vs"
  using assms
  by (auto simp: Model3DModel_def AVAILABLE_VARIANTS_def selectModelVariant_def enum_defs)

theorem selectModelVariant_available_witness:
  "HUNYUAN3D \<in> set Model3DModel \<and>
   (\<exists>vs. AVAILABLE_VARIANTS HUNYUAN3D = Some vs \<and> selectModelVariant HUNYUAN3D 3 True \<in> set vs) \<and>
   selectModelVariant HUNYUAN3D 3 True = MULTI_TURBO"
proof -
  have h: "HUNYUAN3D \<in> set Model3DModel"
    by (simp add: Model3DModel_def)
  have "selectModelVariant HUNYUAN3D 3 True = MULTI_TURBO"
    by (simp add: selectModelVariant_def enum_defs)
  with h selectModelVariant_available [OF h, of 3 True] show ?thesis
    by simp
qed

section \<open>Properties of strict validation\<close>




section \<open>Properties of merging\<close>

text \<open>
  C9. For options whose model is of the enum, merging with the model's defaults succeeds,
  merging the merged options again changes nothing, every defaultable key the caller
  supplied keeps the caller's value, the keys without a default are copied, and options in
  which every defaultable key is present come back unchanged.
\<close>

theorem merge3DWithDefaults_idempotent:
  assumes "model opts \<in> set Model3DModel"
  shows "\<exists>merged. merge3DWithDefaults opts = Inr merged \<and>
    merge3DWithDefaults merged = Inr merged \<and>
    (format opts \<noteq> Absent \<longrightarrow> format merged = format opts) \<and>
    (variant opts \<noteq> Absent \<longrightarrow> variant merged = variant opts) \<and>
    (autoGenerateReferences opts \<noteq> Absent \<longrightarrow>
       autoGenerateReferences merged = autoGenerateReferences opts) \<and>
    (referenceModel opts \<noteq> Absent \<longrightarrow> referenceModel merged = referenceModel opts) \<and>
    (referenceViews opts \<noteq> Absent \<longrightarrow> referenceViews merged = referenceViews opts) \<and>
    (cleanupReferences opts \<noteq> Absent \<longrightarrow> cleanupReferences merged = cleanupReferences opts) \<and>
    model merged = model opts \<and> outputPath merged = outputPath opts \<and>
    prompt merged = prompt opts \<and> inputImagePaths merged = inputImagePaths opts \<and>
    quality merged = quality opts \<and> textured_mesh merged = textured_mesh opts \<and>
    (format opts \<noteq> Absent \<and> variant opts \<noteq> Absent \<and> autoGenerateReferences opts \<noteq> Absent \<and>
     referenceModel opts \<noteq> Absent \<and> referenceViews opts \<noteq> Absent \<and>
     cleanupReferences opts \<noteq> Absent \<longrightarrow> merged = opts)"
proof -
  have spread_id: "\<And>d (p :: 'a js_prop). p \<noteq> Absent \<Longrightarrow> spread d p = p"
    by (case_tac p) simp_all
  have spread_twice: "\<And>d (p :: 'a js_prop). spread d (spread d p) = spread d p"
    by (case_tac p) simp_all
  have "\<exists>defaults. getDefault3DOptions (model opts) = Inr defaults"
    using assms by (auto simp: Model3DModel_def getDefault3DOptions_def enum_defs)
  then obtain defaults where d: "getDefault3DOptions (model opts) = Inr defaults"
    by blast
  show ?thesis
    by (simp add: merge3DWithDefaults_def d spread_id spread_twice)
qed

theorem merge3DWithDefaults_idempotent_witness:
  "model request_full \<in> set Model3DModel \<and>
   format request_full \<noteq> Absent \<and> variant request_full \<noteq> Absent \<and>
   autoGenerateReferences request_full \<noteq> Absent \<and> referenceModel request_full \<noteq> Absent \<and>
   referenceViews request_full \<noteq> Absent \<and> cleanupReferences request_full \<noteq> Absent \<and>
   merge3DWithDefaults request_full = Inr request_full"
proof -
  have h: "model request_full \<in> set Model3DModel"
    by (simp add: request_full_def Model3DModel_def)
  have present: "format request_full \<noteq> Absent \<and> variant request_full \<noteq> Absent \<and>
      autoGenerateReferences request_full \<noteq> Absent \<and> referenceModel request_full \<noteq> Absent \<and>
      referenceViews request_full \<noteq> Absent \<and> cleanupReferences request_full \<noteq> Absent"
    by (simp add: request_full_def)
  from merge3DWithDefaults_idempotent [OF h] present
  have "merge3DWithDefaults request_full = Inr request_full"
    by auto
  with h present show ?thesis
    by simp
qed

section \<open>Properties of the polling loop\<close>

lemma pollLoop_requests_bound:
  "length (requested (fst (pollLoop h req m p a st))) \<le> length (requested st) + (m - a)"
proof (induction h req m p a st rule: pollLoop.induct)
  case (1 h req m p a st)
  show ?case
  proof (cases "a < m")
    case False
    then show ?thesis by (simp add: pollLoop.simps)
  next
    case True
    show ?thesis
    proof (cases "still_processing (h a req)")
      case False
      with True show ?thesis
        by (subst pollLoop.simps)
          (auto simp: still_processing_def Let_def split: sum.splits option.splits)
    next
      case True
      then obtain response where r: "h a req = Inr response" "resp_error response = None"
        "resp_status response \<noteq> Value ''SUCCEEDED''"
        "\<not> (resp_status response = Value ''FAILED'' \<or> resp_status response = Value ''EXPIRED'')"
        by (auto simp: still_processing_def split: sum.splits)
      have "length (requested (fst (pollLoop h req m p (Suc a)
               (st\<lparr>requested := requested st @ [req], slept := slept st + p\<rparr>))))
            \<le> length (requested st) + 1 + (m - Suc a)"
        using "1.IH" [OF \<open>a < m\<close> refl r(1) r(2) r(3) r(4)] by simp
      with \<open>a < m\<close> r show ?thesis
        by (subst pollLoop.simps) (simp add: Let_def)
    qed
  qed
qed

lemma pollLoop_skip:
  assumes "\<forall>j. a \<le> j \<and> j < k \<longrightarrow> still_processing (h j req)"
    and "a \<le> k" and "k \<le> m"
  shows "pollLoop h req m p a st =
    pollLoop h req m p k
      (st\<lparr>requested := requested st @ replicate (k - a) req, slept := slept st + (k - a) * p\<rparr>)"
  using assms
proof (induction "k - a" arbitrary: a st)
  case 0
  then show ?case by simp
next
  case (Suc n)
  then have lt: "a < m" "a < k" by auto
  from Suc.prems(1) lt have "still_processing (h a req)" by simp
  then obtain response where r: "h a req = Inr response" "resp_error response = None"
    "resp_status response \<noteq> Value ''SUCCEEDED''"
    "resp_status response \<noteq> Value ''FAILED''" "resp_status response \<noteq> Value ''EXPIRED''"
    by (auto simp: still_processing_def split: sum.splits)
  have step: "pollLoop h req m p a st =
      pollLoop h req m p (Suc a) (st\<lparr>requested := requested st @ [req], slept := slept st + p\<rparr>)"
    using lt r by (subst pollLoop.simps) (simp add: Let_def)
  have "n = k - Suc a" using Suc.hyps(2) by simp
  from Suc.hyps(1) [OF this, of "st\<lparr>requested := requested st @ [req], slept := slept st + p\<rparr>"]
    Suc.prems lt
  have "pollLoop h req m p (Suc a) (st\<lparr>requested := requested st @ [req], slept := slept st + p\<rparr>) =
      pollLoop h req m p k
        (st\<lparr>requested := requested st @ [req] @ replicate (k - Suc a) req,
            slept := slept st + p + (k - Suc a) * p\<rparr>)"
    by simp
  moreover have "[req] @ replicate (k - Suc a) req = replicate (k - a) req"
    using lt by (metis Cons_eq_appendI Suc_diff_Suc append_Nil replicate_Suc)
  moreover have "slept st + p + (k - Suc a) * p = slept st + (k - a) * p"
    using lt by (metis Suc_diff_Suc add.assoc mult_Suc)
  ultimately show ?case
    using step by simp
qed

text \<open>
  C10. With \<open>m\<close> the maximum number of attempts (120 unless given) and \<open>p\<close> the interval
  (5000 ms unless given), the loop sends at most \<open>m\<close> requests. If the first \<open>k < m\<close>
  responses leave the task in progress and response \<open>k\<close> reports SUCCEEDED, that response is
  returned after \<open>k + 1\<close> requests and \<open>k\<close> waits; if it reports FAILED or EXPIRED, the
  task error is thrown; whatever else response \<open>k\<close> is, the loop stops there; if all \<open>m\<close>
  responses leave the task in progress, the timeout error is thrown after exactly \<open>m\<close>
  requests and \<open>m\<close> waits. The function is total: it returns or throws for every
  behaviour of the server.
\<close>

theorem pollMeshyTaskStatus_bounded:
  fixes h taskId apiKey basePath maxAttempts pollInterval
  defines "m \<equiv> with_default 120 maxAttempts"
    and "p \<equiv> with_default 5000 pollInterval"
    and "req \<equiv> meshy_status_request taskId apiKey basePath"
    and "run \<equiv> pollMeshyTaskStatus h taskId apiKey basePath maxAttempts pollInterval"
  shows "length (requested (fst run)) \<le> m \<and>
    (\<forall>k r. k < m \<and> (\<forall>j<k. still_processing (h j req)) \<and> h k req = Inr r \<and>
        resp_error r = None \<and> resp_status r = Value ''SUCCEEDED'' \<longrightarrow>
      run = (\<lparr>requested = replicate (Suc k) req, slept = k * p\<rparr>, Inr r)) \<and>
    (\<forall>k r. k < m \<and> (\<forall>j<k. still_processing (h j req)) \<and> h k req = Inr r \<and>
        resp_error r = None \<and>
        (resp_status r = Value ''FAILED'' \<or> resp_status r = Value ''EXPIRED'') \<longrightarrow>
      run = (\<lparr>requested = replicate (Suc k) req, slept = k * p\<rparr>,
        Inl (''Meshy task '' @ render (resp_status r) @ '': '' @
          (if truthy (resp_task_error_message r) then render (resp_task_error_message r)
           else ''Unknown error'')))) \<and>
    (\<forall>k. k < m \<and> (\<forall>j<k. still_processing (h j req)) \<and> \<not> still_processing (h k req) \<longrightarrow>
      fst run = \<lparr>requested = replicate (Suc k) req, slept = k * p\<rparr>) \<and>
    ((\<forall>j<m. still_processing (h j req)) \<longrightarrow>
      run = (\<lparr>requested = replicate m req, slept = m * p\<rparr>,
        Inl ''Meshy task timed out after maximum polling attempts''))"
proof -
  let ?st0 = "\<lparr>requested = [], slept = 0\<rparr>"
  have run: "run = pollLoop h req m p 0 ?st0"
    by (simp add: run_def pollMeshyTaskStatus_def m_def p_def req_def)
  have bound: "length (requested (fst run)) \<le> m"
    using pollLoop_requests_bound [of h req m p 0 ?st0] by (simp add: run)
  have skip: "run = pollLoop h req m p k \<lparr>requested = replicate k req, slept = k * p\<rparr>"
    if "\<forall>j<k. still_processing (h j req)" and "k \<le> m" for k
    using pollLoop_skip [of 0 k h req m p ?st0] that by (simp add: run)
  have succeeded: "run = (\<lparr>requested = replicate (Suc k) req, slept = k * p\<rparr>, Inr r)"
    if "k < m" "\<forall>j<k. still_processing (h j req)" "h k req = Inr r"
      "resp_error r = None" "resp_status r = Value ''SUCCEEDED''" for k r
  proof -
    have "run = pollLoop h req m p k \<lparr>requested = replicate k req, slept = k * p\<rparr>"
      using skip that by simp
    also have "\<dots> = (\<lparr>requested = replicate (Suc k) req, slept = k * p\<rparr>, Inr r)"
      using that by (subst pollLoop.simps) (simp add: Let_def replicate_append_same)
    finally show ?thesis .
  qed
  have failed: "run = (\<lparr>requested = replicate (Suc k) req, slept = k * p\<rparr>,
        Inl (''Meshy task '' @ render (resp_status r) @ '': '' @
          (if truthy (resp_task_error_message r) then render (resp_task_error_message r)
           else ''Unknown error'')))"
    if "k < m" "\<forall>j<k. still_processing (h j req)" "h k req = Inr r"
      "resp_error r = None"
      "resp_status r = Value ''FAILED'' \<or> resp_status r = Value ''EXPIRED''" for k r
  proof -
    have "run = pollLoop h req m p k \<lparr>requested = replicate k req, slept = k * p\<rparr>"
      using skip that by simp
    also have "\<dots> = (\<lparr>requested = replicate (Suc k) req, slept = k * p\<rparr>,
        Inl (''Meshy task '' @ render (resp_status r) @ '': '' @
          (if truthy (resp_task_error_message r) then render (resp_task_error_message r)
           else ''Unknown error'')))"
      using that by (subst pollLoop.simps) (auto simp: Let_def replicate_append_same)
    finally show ?thesis .
  qed
  have timeout: "run = (\<lparr>requested = replicate m req, slept = m * p\<rparr>,
        Inl ''Meshy task timed out after maximum polling attempts'')"
    if "\<forall>j<m. still_processing (h j req)"
  proof -
    have "run = pollLoop h req m p m \<lparr>requested = replicate m req, slept = m * p\<rparr>"
      using skip that by simp
    also have "\<dots> = (\<lparr>requested = replicate m req, slept = m * p\<rparr>,
        Inl ''Meshy task timed out after maximum polling attempts'')"
      by (subst pollLoop.simps) simp
    finally show ?thesis .
  qed
  have stopped: "fst run = \<lparr>requested = replicate (Suc k) req, slept = k * p\<rparr>"
    if "k < m" "\<forall>j<k. still_processing (h j req)" "\<not> still_processing (h k req)" for k
  proof -
    have "run = pollLoop h req m p k \<lparr>requested = replicate k req, slept = k * p\<rparr>"
      using skip that by simp
    also have "fst \<dots> = \<lparr>requested = replicate (Suc k) req, slept = k * p\<rparr>"
      using that(1,3)
      by (subst pollLoop.simps)
        (auto simp: Let_def replicate_append_same still_processing_def
          split: sum.splits option.splits)
    finally show ?thesis .
  qed
  from bound succeeded failed stopped timeout show ?thesis
    by blast
qed

theorem pollMeshyTaskStatus_bounded_witness:
  "pollMeshyTaskStatus server_never_done ''t1'' ''key'' Absent Absent Absent =
     (\<lparr>requested = replicate 120 (meshy_status_request ''t1'' ''key'' Absent), slept = 600000\<rparr>,
      Inl ''Meshy task timed out after maximum polling attempts'') \<and>
   pollMeshyTaskStatus server_done_at_third ''t1'' ''key'' Absent Absent Absent =
     (\<lparr>requested = replicate 3 (meshy_status_request ''t1'' ''key'' Absent), slept = 10000\<rparr>,
      Inr response_succeeded) \<and>
   length (requested (fst (pollMeshyTaskStatus server_done_at_third ''t1'' ''key'' Absent Absent
     Absent))) \<le> 120"
proof -
  let ?req = "meshy_status_request ''t1'' ''key'' Absent"
  have never: "\<forall>j<120. still_processing (server_never_done j ?req)"
    by (simp add: server_never_done_def still_processing_def response_in_progress_def)
  have first: "\<forall>j<2. still_processing (server_done_at_third j ?req)"
    by (simp add: server_done_at_third_def still_processing_def response_in_progress_def)
  have third: "server_done_at_third 2 ?req = Inr response_succeeded"
    "resp_error response_succeeded = None"
    "resp_status response_succeeded = Value ''SUCCEEDED''"
    by (simp_all add: server_done_at_third_def response_succeeded_def)
  have a: "pollMeshyTaskStatus server_never_done ''t1'' ''key'' Absent Absent Absent =
     (\<lparr>requested = replicate 120 ?req, slept = 600000\<rparr>,
      Inl ''Meshy task timed out after maximum polling attempts'')"
    using pollMeshyTaskStatus_bounded [of server_never_done "''t1''" "''key''" Absent Absent Absent]
      never by simp
  have b: "pollMeshyTaskStatus server_done_at_third ''t1'' ''key'' Absent Absent Absent =
     (\<lparr>requested = replicate 3 ?req, slept = 10000\<rparr>, Inr response_succeeded)"
  proof -
    have "(2::nat) < with_default 120 Absent \<and>
        (\<forall>j<2. still_processing (server_done_at_third j ?req)) \<and>
        server_done_at_third 2 ?req = Inr response_succeeded \<and>
        resp_error response_succeeded = None \<and>
        resp_status response_succeeded = Value ''SUCCEEDED''"
      using first third by simp
    from pollMeshyTaskStatus_bounded [of server_done_at_third "''t1''" "''key''" Absent Absent
        Absent, THEN conjunct2, THEN conjunct1, rule_format, OF this]
    show ?thesis
      by (simp add: numeral_3_eq_3 numeral_2_eq_2)
  qed
  have c: "length (requested (fst (pollMeshyTaskStatus server_done_at_third ''t1'' ''key'' Absent
      Absent Absent))) \<le> 120"
    using pollMeshyTaskStatus_bounded [of server_done_at_third "''t1''" "''key''" Absent Absent Absent]
    by simp
  from a b c show ?thesis by simp
qed

section \<open>Properties of the reference image generator\<close>

lemma insert_sorted_front: "insert_sorted view_compare Front ys = Front # ys"
  by (cases ys) (simp_all add: view_compare_def)

lemma insert_sorted_other: "x \<noteq> Front \<Longrightarrow> insert_sorted view_compare x ys = ys @ [x]"
  by (induction ys) (simp_all add: view_compare_def)

lemma foldl_insert_views:
  "foldl (\<lambda>sorted x. insert_sorted view_compare x sorted) acc xs =
   replicate (length (filter (\<lambda>v. v = Front) xs)) Front @ acc @ filter (\<lambda>v. v \<noteq> Front) xs"
proof (induction xs arbitrary: acc)
  case Nil
  then show ?case by simp
next
  case (Cons x xs)
  show ?case
  proof (cases "x = Front")
    case True
    then show ?thesis
      by (simp add: Cons.IH insert_sorted_front replicate_app_Cons_same)
  next
    case False
    then show ?thesis
      by (simp add: Cons.IH insert_sorted_other)
  qed
qed

lemma sortedViews_eq:
  "sortedViews views = filter (\<lambda>v. v = Front) views @ filter (\<lambda>v. v \<noteq> Front) views"
proof -
  have "filter (\<lambda>v. v = Front) views = replicate (length (filter (\<lambda>v. v = Front) views)) Front"
    by (induction views) simp_all
  then show ?thesis
    by (simp add: sortedViews_def js_sort_def foldl_insert_views)
qed

lemma length_sortedViews: "length (sortedViews views) = length views"
  by (simp add: sortedViews_eq sum_length_filter_compl)

lemma set_sortedViews: "set (sortedViews views) = set views"
  by (auto simp: sortedViews_eq)

lemma sortedViews_front: "Front \<in> set views \<Longrightarrow> \<exists>rest. sortedViews views = Front # rest"
proof -
  assume "Front \<in> set views"
  then have "filter (\<lambda>v. v = Front) views \<noteq> []"
    by (simp add: filter_empty_conv)
  then obtain y ys where ys: "filter (\<lambda>v. v = Front) views = y # ys"
    by (cases "filter (\<lambda>v. v = Front) views") auto
  then have "y \<in> set (filter (\<lambda>v. v = Front) views)" by simp
  then have "y = Front" by simp
  with ys show ?thesis by (simp add: sortedViews_eq)
qed

lemma length_loop_calls: "length (loop_calls e p b prov i vs refs) = length vs"
  by (induction vs arbitrary: i refs) (simp_all add: Let_def)

lemma paths_of_calls_index:
  "paths_of_calls e i xs =
   concat (map (\<lambda>j. pushed_paths (generateImage e (i + j) (xs ! j))) [0..<length xs])"
proof (induction xs arbitrary: i)
  case Nil
  then show ?case by simp
next
  case (Cons x xs)
  have "[0..<length (x # xs)] = 0 # map Suc [0..<length xs]"
    by (simp add: upt_conv_Cons map_Suc_upt del: upt_Suc)
  then show ?case
    by (simp add: Cons.IH comp_def del: upt_Suc)
qed

lemma paths_of_calls_take:
  "k \<le> length xs \<Longrightarrow> paths_of_calls e 0 (take k xs) =
   concat (map (\<lambda>j. pushed_paths (generateImage e j (xs ! j))) [0..<k])"
proof -
  assume "k \<le> length xs"
  have "map (\<lambda>j. pushed_paths (generateImage e j (take k xs ! j))) [0..<k] =
      map (\<lambda>j. pushed_paths (generateImage e j (xs ! j))) [0..<k]"
    by (rule map_cong) simp_all
  moreover have "paths_of_calls e 0 (take k xs) =
      concat (map (\<lambda>j. pushed_paths (generateImage e j (take k xs ! j))) [0..<k])"
    using \<open>k \<le> length xs\<close> by (simp add: paths_of_calls_index min_def)
  ultimately show ?thesis
    by (simp only:)
qed

lemma loop_calls_nth:
  "k < length vs \<Longrightarrow>
   loop_calls e p b prov i vs refs ! k =
   view_request p b prov (i + k) (vs ! k)
     (refs @ paths_of_calls e i (take k (loop_calls e p b prov i vs refs)))"
proof (induction vs arbitrary: i refs k)
  case Nil
  then show ?case by simp
next
  case (Cons v vs)
  show ?case
  proof (cases k)
    case 0
    then show ?thesis by (simp add: Let_def)
  next
    case (Suc k')
    with Cons.prems have "k' < length vs" by simp
    from Cons.IH [OF this] Suc show ?thesis
      by (simp add: Let_def)
  qed
qed

lemma referenceLoop_eq:
  "referenceLoop e p b prov i vs refs w =
   (refs @ paths_of_calls e i (loop_calls e p b prov i vs refs),
    w\<lparr>files := files w \<union> set (paths_of_calls e i (loop_calls e p b prov i vs refs)),
      imageCalls := imageCalls w @ loop_calls e p b prov i vs refs\<rparr>)"
proof (induction vs arbitrary: i refs w)
  case Nil
  then show ?case by simp
next
  case (Cons v vs)
  show ?case
    by (simp add: Cons.IH Let_def Un_assoc)
qed

lemma generateReferenceImages_eq:
  "generateReferenceImages e p b views provider w =
   (let calls = loop_calls e p b (with_default ''gemini'' provider) 0
          (sortedViews (with_default [Front, Back, Top] views)) []
    in (paths_of_calls e 0 calls,
        w\<lparr>files := files w \<union> set (paths_of_calls e 0 calls),
          imageCalls := imageCalls w @ calls\<rparr>))"
  by (simp add: generateReferenceImages_def referenceLoop_eq Let_def)

text \<open>
  C6. When the requested views contain \<open>front\<close>, the first call generates the front view
  from the text prompt alone, and every later call \<open>i\<close> generates view \<open>i\<close> of the sorted
  list with \<open>inputImagePaths\<close> equal to the paths pushed by all the calls before it, in
  order.
\<close>

theorem generateReferenceImages_front_first:
  fixes e p b views provider w
  defines "w' \<equiv> snd (generateReferenceImages e p b (Value views) provider w)"
  defines "calls \<equiv> drop (length (imageCalls w)) (imageCalls w')"
  assumes front: "Front \<in> set views"
  shows "hd (sortedViews views) = Front \<and>
    length calls = length views \<and>
    calls ! 0 = view_request p b (with_default ''gemini'' provider) 0 Front [] \<and>
    img_inputImagePaths (calls ! 0) = Absent \<and>
    (\<forall>i. 0 < i \<and> i < length calls \<longrightarrow>
       calls ! i = view_request p b (with_default ''gemini'' provider) i (sortedViews views ! i)
         (concat (map (\<lambda>j. pushed_paths (generateImage e j (calls ! j))) [0..<i])) \<and>
       img_inputImagePaths (calls ! i) =
         Value (concat (map (\<lambda>j. pushed_paths (generateImage e j (calls ! j))) [0..<i])))"
proof -
  let ?prov = "with_default ''gemini'' provider"
  let ?cs = "loop_calls e p b ?prov 0 (sortedViews views) []"
  have calls: "calls = ?cs"
    by (simp add: calls_def w'_def generateReferenceImages_eq Let_def)
  have len: "length calls = length views"
    by (simp add: calls length_loop_calls length_sortedViews)
  from front obtain rest where rest: "sortedViews views = Front # rest"
    using sortedViews_front by blast
  have nth: "calls ! i = view_request p b ?prov i (sortedViews views ! i)
      (concat (map (\<lambda>j. pushed_paths (generateImage e j (calls ! j))) [0..<i]))"
    if "i < length calls" for i
  proof -
    from that len have i: "i < length (sortedViews views)"
      by (simp add: length_sortedViews)
    from that have "i \<le> length ?cs"
      by (simp add: calls)
    from loop_calls_nth [OF i, of e p b ?prov 0 "[]"] paths_of_calls_take [OF this, of e]
    show ?thesis
      by (simp add: calls)
  qed
  have first: "calls ! 0 = view_request p b ?prov 0 Front []"
    by (simp add: calls rest Let_def)
  have later: "img_inputImagePaths (view_request p b ?prov i v refs) = Value refs"
    if "0 < i" for i v refs
    using that by (simp add: view_request_def Let_def)
  from rest len first nth later show ?thesis
    by (simp add: view_request_def Let_def)
qed

text \<open>
  C7. Every requested view is attempted, whichever calls throw, and the function returns
  (it has no error result): the returned list is the concatenation, in generation order, of
  the paths saved by the calls that resolved, with nothing for a call that threw.
\<close>

theorem generateReferenceImages_skips_failures:
  fixes e p b views provider w
  defines "run \<equiv> generateReferenceImages e p b views provider w"
  defines "calls \<equiv> drop (length (imageCalls w)) (imageCalls (snd run))"
  shows "length calls = length (with_default [Front, Back, Top] views) \<and>
    fst run = concat (map (\<lambda>j.
      case generateImage e j (calls ! j) of
        Inl thrown \<Rightarrow> []
      | Inr saved \<Rightarrow> with_default [] saved) [0..<length calls])"
proof -
  let ?cs = "loop_calls e p b (with_default ''gemini'' provider) 0
      (sortedViews (with_default [Front, Back, Top] views)) []"
  have calls: "calls = ?cs"
    by (simp add: calls_def run_def generateReferenceImages_eq Let_def)
  have pushed: "pushed_paths r = (case r of Inl thrown \<Rightarrow> [] | Inr saved \<Rightarrow> with_default [] saved)"
    for r
    by (cases r rule: pushed_paths.cases) simp_all
  have "fst run = paths_of_calls e 0 calls"
    by (simp add: run_def generateReferenceImages_eq Let_def calls)
  also have "\<dots> = concat (map (\<lambda>j. pushed_paths (generateImage e j (calls ! j)))
      [0..<length calls])"
    by (simp add: paths_of_calls_index)
  finally show ?thesis
    by (simp add: pushed calls length_loop_calls length_sortedViews)
qed

lemma sortedViews_top_front_back: "sortedViews [Top, Front, Back] = [Front, Top, Back]"
  by (simp add: sortedViews_def js_sort_def view_compare_def)

lemma sortedViews_front_back_top: "sortedViews [Front, Back, Top] = [Front, Back, Top]"
  by (simp add: sortedViews_def js_sort_def view_compare_def)

lemma replace_ext_test:
  "replace_ext ''test_object.png'' ''_ref_front.png'' = ''test_object_ref_front.png''"
  "replace_ext ''test_object.png'' ''_ref_top.png'' = ''test_object_ref_top.png''"
  "replace_ext ''test_object.png'' ''_ref_back.png'' = ''test_object_ref_back.png''"
  by (simp_all add: replace_ext_def)

theorem generateReferenceImages_skips_failures_witness:
  "fst (generateReferenceImages env_second_view_fails ''test object'' ''test_object.png''
     (Value [Front, Back, Top]) (Value ''gemini'') world0) = [''test_front.png'', ''test_top.png''] \<and>
   length (imageCalls (snd (generateReferenceImages env_second_view_fails ''test object''
     ''test_object.png'' (Value [Front, Back, Top]) (Value ''gemini'') world0))) = 3"
proof -
  let ?run = "generateReferenceImages env_second_view_fails ''test object'' ''test_object.png''
     (Value [Front, Back, Top]) (Value ''gemini'') world0"
  let ?calls = "drop (length (imageCalls world0)) (imageCalls (snd ?run))"
  note T = generateReferenceImages_skips_failures [where e = env_second_view_fails
      and p = "''test object''" and b = "''test_object.png''"
      and views = "Value [Front, Back, Top]" and provider = "Value ''gemini''" and w = world0]
  from T have len: "length ?calls = 3"
    by simp
  from T have "fst ?run = concat (map (\<lambda>j.
      case generateImage env_second_view_fails j (?calls ! j) of
        Inl thrown \<Rightarrow> []
      | Inr saved \<Rightarrow> with_default [] saved) [0..<length ?calls])"
    by blast
  also have "\<dots> = [''test_front.png'', ''test_top.png'']"
    by (simp only: len) (simp add: env_second_view_fails_def upt_rec)
  finally have "fst ?run = [''test_front.png'', ''test_top.png'']" .
  with len show ?thesis
    by (simp add: world0_def)
qed

lemma view_request_outputPath:
  "img_outputPath (view_request p b prov i v refs) =
   replace_ext b (''_ref_'' @ view_str v @ ''.png'')"
  by (simp add: view_request_def Let_def)

theorem generateReferenceImages_front_first_witness:
  "Front \<in> set [Top, Front, Back] \<and>
   hd (sortedViews [Top, Front, Back]) = Front \<and>
   map img_outputPath (imageCalls (snd (generateReferenceImages env_all_views_saved ''test object''
     ''test_object.png'' (Value [Top, Front, Back]) (Value ''gemini'') world0))) =
     [''test_object_ref_front.png'', ''test_object_ref_top.png'', ''test_object_ref_back.png''] \<and>
   img_inputImagePaths (imageCalls (snd (generateReferenceImages env_all_views_saved
     ''test object'' ''test_object.png'' (Value [Top, Front, Back]) (Value ''gemini'') world0)) ! 2) =
     Value [''test_object_ref_front.png'', ''test_object_ref_top.png'']"
proof -
  let ?run = "generateReferenceImages env_all_views_saved ''test object'' ''test_object.png''
     (Value [Top, Front, Back]) (Value ''gemini'') world0"
  let ?calls = "drop (length (imageCalls world0)) (imageCalls (snd ?run))"
  have front: "Front \<in> set [Top, Front, Back]"
    by simp
  have gen: "generateImage env_all_views_saved i r = Inr (Value [img_outputPath r])" for i r
    by (simp add: env_all_views_saved_def)
  have calls: "imageCalls (snd ?run) =
      [view_request ''test object'' ''test_object.png'' ''gemini'' 0 Front [],
       view_request ''test object'' ''test_object.png'' ''gemini'' 1 Top
         [''test_object_ref_front.png''],
       view_request ''test object'' ''test_object.png'' ''gemini'' 2 Back
         [''test_object_ref_front.png'', ''test_object_ref_top.png'']]"
    by (simp add: world0_def generateReferenceImages_def sortedViews_top_front_back Let_def gen
        view_request_outputPath replace_ext_test numeral_2_eq_2)
  have drop0: "?calls = imageCalls (snd ?run)"
    by (simp add: world0_def)
  note T = generateReferenceImages_front_first [OF front, where e = env_all_views_saved
      and p = "''test object''" and b = "''test_object.png''"
      and provider = "Value ''gemini''" and w = world0]
  from T have hd: "hd (sortedViews [Top, Front, Back]) = Front"
    by blast
  from T have "0 < (2::nat) \<and> 2 < length ?calls \<longrightarrow> img_inputImagePaths (?calls ! 2) =
      Value (concat (map (\<lambda>j. pushed_paths (generateImage env_all_views_saved j (?calls ! j)))
        [0..<2]))"
    by blast
  then have "img_inputImagePaths (imageCalls (snd ?run) ! 2) =
      Value (concat (map (\<lambda>j. pushed_paths (generateImage env_all_views_saved j
        (imageCalls (snd ?run) ! j))) [0..<2]))"
    by (simp only: drop0) (simp add: calls)
  also have "\<dots> = Value [''test_object_ref_front.png'', ''test_object_ref_top.png'']"
    by (simp add: calls gen view_request_outputPath replace_ext_test upt_rec numeral_2_eq_2)
  finally have inputs: "img_inputImagePaths (imageCalls (snd ?run) ! 2) =
      Value [''test_object_ref_front.png'', ''test_object_ref_top.png'']" .
  have outs: "map img_outputPath (imageCalls (snd ?run)) =
      [''test_object_ref_front.png'', ''test_object_ref_top.png'', ''test_object_ref_back.png'']"
    by (simp add: calls view_request_outputPath replace_ext_test)
  from front hd outs inputs show ?thesis
    by blast
qed

section \<open>Lemmas about the job\<close>



lemma updateStatusFile_other [simp]:
  "files (updateStatusFile e p patch w) = files w"
  "imageCalls (updateStatusFile e p patch w) = imageCalls w"
  "backendCalls (updateStatusFile e p patch w) = backendCalls w"
  by (simp_all add: updateStatusFile_def Let_def)

lemma addLogToStatus_other [simp]:
  "files (addLogToStatus e p msg w) = files w"
  "imageCalls (addLogToStatus e p msg w) = imageCalls w"
  "backendCalls (addLogToStatus e p msg w) = backendCalls w"
  by (simp_all add: addLogToStatus_def Let_def)





lemma docs_snoc:
  "n \<le> length ws \<Longrightarrow> map snd (drop n (ws @ [(p, d)])) = map snd (drop n ws) @ [d]"
  by simp




























lemma initialWrite_other [simp]:
  "files (initialWrite e p w) = files w"
  "imageCalls (initialWrite e p w) = imageCalls w"
  "backendCalls (initialWrite e p w) = backendCalls w"
  by (simp_all add: initialWrite_def)


















section \<open>Properties of the asynchronous job\<close>












end
